theory Spec2Isabelle
  imports Complex_Main "HOL-Library.Multiset" "HOL-Library.Sublist" "HOL-Library.Char_ord"
    "HOL-Library.List_Lexorder"
begin

section \<open>plot.py: the pairwise comparison of two sample sets\<close>

text \<open>
  The samples are float64 numbers, and a finite float64 is the real number it stands for.
  The arithmetic of numpy rounds: what \<open>np.mean\<close>, \<open>np.std\<close> and the elementwise
  subtraction, multiplication and division return is not what the arithmetic of the
  reals returns. These five operations are therefore a parameter of the model, the record
  \<open>numpy\<close>, and a statement about every sequence holds for every such record. \<open>nan\<close>
  is written out where a mean or a standard deviation may be \<open>nan\<close> (type \<open>npfloat\<close>); a
  result that overflows to an infinity is outside the model. Comparison and absolute
  value are exact in float64: they are those of the reals.
\<close>

datatype npfloat = Num real | NaN

record numpy =
  np_mean :: "real list \<Rightarrow> npfloat"
  np_std :: "real list \<Rightarrow> npfloat"
  np_subtract :: "real \<Rightarrow> real \<Rightarrow> real"
  np_multiply :: "real \<Rightarrow> real \<Rightarrow> real"
  np_divide :: "real \<Rightarrow> real \<Rightarrow> real"

text \<open>
  The operations without rounding: for the mean the sum over the number of elements, and
  \<open>nan\<close> on an empty array; for the standard deviation \<open>sqrt(mean(abs(x - x.mean())**2))\<close>.
  They serve to evaluate the functions at concrete samples on which float64 decides every
  comparison in the same way: arrays of small integers on which no operation rounds (the
  mean, the variance and its root are integers), or on which every comparison is decided
  by a margin far above the rounding error.
\<close>

definition exact_mean :: "real list \<Rightarrow> npfloat" where
  "exact_mean vs = (if vs = [] then NaN else Num (sum_list vs / real (length vs)))"

definition exact_std :: "real list \<Rightarrow> npfloat" where
  "exact_std vs =
     (case exact_mean vs of
        NaN \<Rightarrow> NaN
      | Num mu \<Rightarrow>
          (case exact_mean (map (\<lambda>v. \<bar>v - mu\<bar> ^ 2) vs) of
             NaN \<Rightarrow> NaN
           | Num var \<Rightarrow> Num (sqrt var)))"

definition exact :: numpy where
  "exact = \<lparr>np_mean = exact_mean, np_std = exact_std, np_subtract = (\<lambda>a b. a - b),
            np_multiply = (\<lambda>a b. a * b), np_divide = (\<lambda>a b. a / b)\<rparr>"

text \<open>
  \<^verbatim>\<open>def remove_outliers(values, m=2):
    return values[abs(values - np.mean(values)) < np.multiply(m, np.std(values))]\<close>
  \<open>outlier_mask\<close> is one entry of the Boolean mask; indexing with the mask keeps the
  elements whose entry is true, in order. A comparison with \<open>nan\<close> is false.
\<close>

definition outlier_mask :: "numpy \<Rightarrow> real list \<Rightarrow> real \<Rightarrow> real \<Rightarrow> bool" where
  "outlier_mask N vs m v =
     (case np_mean N vs of
        NaN \<Rightarrow> False
      | Num mu \<Rightarrow>
          (case np_std N vs of
             NaN \<Rightarrow> False
           | Num sd \<Rightarrow> \<bar>np_subtract N v mu\<bar> < np_multiply N m sd))"

definition remove_outliers :: "numpy \<Rightarrow> real list \<Rightarrow> real \<Rightarrow> real list" where
  "remove_outliers N vs m = filter (outlier_mask N vs m) vs"

text \<open>\<^verbatim>\<open>np.outer(a, b)\<close>: row \<open>i\<close> holds \<open>a[i] * b[j]\<close> for every \<open>j\<close>; \<open>flatten\<close> joins the rows.\<close>

definition outer :: "numpy \<Rightarrow> real list \<Rightarrow> real list \<Rightarrow> real list list" where
  "outer N a b = map (\<lambda>x. map (\<lambda>y. np_multiply N x y) b) a"

definition flatten :: "real list list \<Rightarrow> real list" where
  "flatten rows = concat rows"

text \<open>
  The calls \<open>calculate_diffs\<close> makes to the significance test and to \<open>remove_outliers\<close>, in
  the order it makes them.
\<close>

datatype call = Is_significant "real list" "real list" | Remove_outliers "real list"

text \<open>
  How a run of \<open>calculate_diffs\<close> ends without a value: the significance test raised, or a
  head sample is zero, so that \<open>1.0 / head_values\<close> holds an infinity (no real number).
\<close>

datatype 'e failure = Raised 'e | Not_finite

text \<open>
  \<^verbatim>\<open>def calculate_diffs(ref_values, head_values, outlier_rejection=True):
    sig, t_score = pyperf._utils.is_significant(ref_values, head_values)
    if not sig:
        return None, 0.0
    else:
        if outlier_rejection:
            ref_values = remove_outliers(ref_values)
            head_values = remove_outliers(head_values)
        values = np.outer(ref_values, 1.0 / head_values).flatten()
        values.sort()
        return values, float(values.mean())\<close>
  The significance test belongs to pyperf; it is a parameter, and it may raise. The result
  is paired with the calls made.
\<close>

definition calculate_diffs ::
  "numpy \<Rightarrow> (real list \<Rightarrow> real list \<Rightarrow> 'e + bool \<times> real) \<Rightarrow> real list \<Rightarrow> real list \<Rightarrow> bool
     \<Rightarrow> ('e failure + real list option \<times> npfloat) \<times> call list" where
  "calculate_diffs N is_significant ref_values head_values outlier_rejection =
     (case is_significant ref_values head_values of
        Inl e \<Rightarrow> (Inl (Raised e), [Is_significant ref_values head_values])
      | Inr (sig, t_score) \<Rightarrow>
          if \<not> sig then (Inr (None, Num 0), [Is_significant ref_values head_values])
          else
            let ref_values' =
                  (if outlier_rejection then remove_outliers N ref_values 2 else ref_values);
                head_values' =
                  (if outlier_rejection then remove_outliers N head_values 2 else head_values);
                calls =
                  Is_significant ref_values head_values #
                  (if outlier_rejection
                   then [Remove_outliers ref_values, Remove_outliers head_values] else [])
            in if 0 \<in> set head_values' then (Inl Not_finite, calls)
               else
                 let values = sort (flatten (outer N ref_values'
                                (map (\<lambda>h. np_divide N 1 h) head_values')))
                 in (Inr (Some values, np_mean N values), calls))"

text \<open>
  The outlier policy in the words of the specification, for comparison with
  \<open>remove_outliers\<close>: drop any sample more than 2 standard deviations from the mean of its
  own set, keep all others.
\<close>

definition drop_beyond_two_sigma :: "real list \<Rightarrow> real list" where
  "drop_beyond_two_sigma vs =
     (let mu = sum_list vs / real (length vs);
          sd = sqrt (sum_list (map (\<lambda>v. (v - mu) ^ 2) vs) / real (length vs))
      in filter (\<lambda>v. \<not> 2 * sd < \<bar>v - mu\<bar>) vs)"

section \<open>plot.py: the cache of comparison values in \<open>longitudinal_plot\<close>\<close>

text \<open>
  A \<open>pathlib\<close> path is the list of its components; \<open>str\<close> joins them with a slash. A
  \<open>Result\<close> is an object of \<open>result.py\<close>; of its attributes, \<open>get_comparison_value\<close> reads
  \<open>filename\<close> only.
\<close>

type_synonym path = "string list"

fun join :: "string \<Rightarrow> string list \<Rightarrow> string" where
  "join sep [] = []"
| "join sep [x] = x"
| "join sep (x # y # ys) = x @ sep @ join sep (y # ys)"

definition str_path :: "path \<Rightarrow> string" where
  "str_path p = (if p = [] then ''.'' else join ''/'' p)"

text \<open>
  The dictionary \<open>data\<close> that \<open>longitudinal_plot\<close> loads from \<open>longitudinal.json\<close>, and the
  list of the computations started so far, each with its arguments.
\<close>

record cache =
  data :: "string \<rightharpoonup> real"
  computed :: "(path \<times> path \<times> string) list"

text \<open>
  \<^verbatim>\<open>def get_comparison_value(ref, r, base):
    key = ",".join((str(ref.filename)[8:], str(r.filename)[8:], base))
    if key in data:
        return data[key]
    else:
        value = result.BenchmarkComparison(ref, r, base).hpt_percentile_float(99)
        data[key] = value
        return value\<close>
  \<open>ref\<close> and \<open>r\<close> are given by their \<open>filename\<close>. The statistical pipeline
  (\<open>hpt_percentile_float(99)\<close> of \<open>result.BenchmarkComparison\<close>) is a parameter, and it may
  raise; then nothing is stored.
\<close>

definition comparison_key :: "path \<Rightarrow> path \<Rightarrow> string \<Rightarrow> string" where
  "comparison_key ref r base = join '','' [drop 8 (str_path ref), drop 8 (str_path r), base]"

definition get_comparison_value ::
  "(path \<Rightarrow> path \<Rightarrow> string \<Rightarrow> 'e + real) \<Rightarrow> cache \<Rightarrow> path \<Rightarrow> path \<Rightarrow> string
     \<Rightarrow> ('e + real) \<times> cache" where
  "get_comparison_value hpt_percentile_float_99 c ref r base =
     (let key = comparison_key ref r base in
      case data c key of
        Some stored \<Rightarrow> (Inr stored, c)
      | None \<Rightarrow>
          (case hpt_percentile_float_99 ref r base of
             Inl e \<Rightarrow> (Inl e, c\<lparr>computed := computed c @ [(ref, r, base)]\<rparr>)
           | Inr v \<Rightarrow>
               (Inr v, c\<lparr>data := (data c)(key \<mapsto> v),
                          computed := computed c @ [(ref, r, base)]\<rparr>)))"

section \<open>generate_results.py: folding index entries into nested dictionaries\<close>

text \<open>The exceptions of Python that the functions of this module can end with.\<close>

datatype py_error =
    AssertionError | IndexError | KeyError | AttributeError | ValueError
  | FileNotFoundError | IsADirectoryError | NotADirectoryError

text \<open>
  A tuple is the list of its elements. The structure built is a dictionary whose values
  are dictionaries again or, at the end of a path, lists. A Python dictionary keeps its keys
  in the order of their insertion: it is an association list, read at the first pair with
  the key (\<open>d[k]\<close>, \<open>k in d\<close>), written there or at the end (\<open>d[k] = v\<close>).
\<close>

datatype 'a nested = Leaves "'a list" | Dict "('a \<times> 'a nested) list"

fun dict_get :: "('k \<times> 'v) list \<Rightarrow> 'k \<Rightarrow> 'v option" where
  "dict_get [] k = None"
| "dict_get ((k', v) # d) k = (if k' = k then Some v else dict_get d k)"

fun dict_set :: "('k \<times> 'v) list \<Rightarrow> 'k \<Rightarrow> 'v \<Rightarrow> ('k \<times> 'v) list" where
  "dict_set [] k v = [(k, v)]"
| "dict_set ((k', v') # d) k v = (if k' = k then (k, v) # d else (k', v') # dict_set d k v)"

text \<open>
  \<^verbatim>\<open>d.setdefault(k, v)\<close> returns \<open>d[k]\<close>, after storing \<open>v\<close> there when the key was missing.
\<close>

definition setdefault :: "('k \<times> 'v) list \<Rightarrow> 'k \<Rightarrow> 'v \<Rightarrow> 'v \<times> ('k \<times> 'v) list" where
  "setdefault d k v = (case dict_get d k of Some x \<Rightarrow> (x, d) | None \<Rightarrow> (v, dict_set d k v))"

text \<open>
  \<^verbatim>\<open>def recurse(entry: tuple, d: dict):
    if len(entry) == 2:
        d.setdefault(entry[0], [])
        if entry[1] not in d[entry[0]]:
            d[entry[0]].append(entry[1])
    else:
        recurse(entry[1:], d.setdefault(entry[0], {}))\<close>
  The dictionary is changed in place; the model returns the changed one. Where an earlier
  entry has left a list in the place of a dictionary, \<open>d.setdefault\<close> raises
  \<open>AttributeError\<close>, and so does \<open>append\<close> on a dictionary; \<open>entry[0]\<close> of an empty tuple
  raises \<open>IndexError\<close>.
\<close>

fun recurse :: "'a list \<Rightarrow> 'a nested \<Rightarrow> py_error + 'a nested" where
  "recurse entry (Leaves xs) = Inl AttributeError"
| "recurse entry (Dict d) =
     (if length entry = 2 then
        (let (x, d1) = setdefault d (entry ! 0) (Leaves []) in
         case dict_get d1 (entry ! 0) of
           None \<Rightarrow> Inl KeyError
         | Some (Leaves xs) \<Rightarrow>
             if entry ! 1 \<notin> set xs
             then Inr (Dict (dict_set d1 (entry ! 0) (Leaves (xs @ [entry ! 1]))))
             else Inr (Dict d1)
         | Some (Dict sub) \<Rightarrow>
             if dict_get sub (entry ! 1) = None then Inl AttributeError else Inr (Dict d1))
      else
        (case entry of
           [] \<Rightarrow> Inl IndexError
         | k # rest \<Rightarrow>
             (let (sub, d1) = setdefault d k (Dict []) in
              case recurse rest sub of
                Inl err \<Rightarrow> Inl err
              | Inr sub' \<Rightarrow> Inr (Dict (dict_set d1 k sub')))))"

text \<open>\<^verbatim>\<open>for entry in entries: recurse(entry, d)\<close>, stopping at the first exception.\<close>

fun recurse_all :: "'a list list \<Rightarrow> 'a nested \<Rightarrow> py_error + 'a nested" where
  "recurse_all [] d = Inr d"
| "recurse_all (entry # entries) d =
     (case recurse entry d of Inl err \<Rightarrow> Inl err | Inr d' \<Rightarrow> recurse_all entries d')"

text \<open>
  \<^verbatim>\<open>def _tuple_to_nested_dicts(entries: list[tuple], d: Optional[dict] = None) -> dict:
    assert len(set(len(x) for x in entries)) == 1
    if d is None:
        d = {}
    for entry in entries:
        recurse(entry, d)
    return d\<close>
\<close>

definition tuple_to_nested_dicts ::
  "'a list list \<Rightarrow> ('a \<times> 'a nested) list option \<Rightarrow> py_error + 'a nested" where
  "tuple_to_nested_dicts entries d =
     (if card (set (map length entries)) \<noteq> 1 then Inl AssertionError
      else recurse_all entries (Dict (case d of None \<Rightarrow> [] | Some d0 \<Rightarrow> d0)))"

text \<open>
  Three predicates on the structure, for stating what the fold does: no list at the end of
  a path holds a text twice; every path has \<open>n\<close> keys; and the path of an entry exists and
  its list holds the entry's text (for a dictionary at that place: holds it as a key, which
  is what \<open>not in\<close> tests).
\<close>

fun leaves_distinct :: "'a nested \<Rightarrow> bool" where
  "leaves_distinct (Leaves xs) = distinct xs"
| "leaves_distinct (Dict d) = (\<forall>kt \<in> set d. leaves_distinct (snd kt))"

fun shaped :: "nat \<Rightarrow> 'a nested \<Rightarrow> bool" where
  "shaped 0 t = (case t of Leaves xs \<Rightarrow> True | Dict d \<Rightarrow> False)"
| "shaped (Suc n) t = (case t of Leaves xs \<Rightarrow> False | Dict d \<Rightarrow> (\<forall>kt \<in> set d. shaped n (snd kt)))"

fun present :: "'a list \<Rightarrow> 'a nested \<Rightarrow> bool" where
  "present entry (Leaves xs) = False"
| "present entry (Dict d) =
     (if length entry = 2 then
        (case dict_get d (entry ! 0) of
           None \<Rightarrow> False
         | Some (Leaves xs) \<Rightarrow> entry ! 1 \<in> set xs
         | Some (Dict sub) \<Rightarrow> dict_get sub (entry ! 1) \<noteq> None)
      else
        (case entry of
           [] \<Rightarrow> False
         | k # rest \<Rightarrow>
             (case dict_get d k of None \<Rightarrow> False | Some sub \<Rightarrow> present rest sub)))"

section \<open>generate_results.py: results, their comparisons and the files on disk\<close>

text \<open>
  \<open>Result\<close> and \<open>Comparison\<close> are classes of \<open>result.py\<close>. A record holds the attributes
  that the functions below read: of a comparison the \<open>filename\<close> of its report (or \<open>None\<close>)
  and its \<open>contents\<close>; of a result its \<open>filename\<close>, \<open>run_date\<close>, \<open>version\<close>, the pair
  \<open>result_info\<close> and the dictionary \<open>bases\<close> from base label to comparison, in insertion
  order.
\<close>

record comparison =
  cmp_filename :: "path option"
  contents :: "string option"

record result =
  filename :: path
  run_date :: string
  version :: string
  result_info :: "string option \<times> string option"
  bases :: "(string \<times> comparison) list"

text \<open>
  \<^verbatim>\<open>def summarize_results(results, bases, n_recent=3, days=3):
    results = list(results)
    new_results = []
    earliest = (datetime.date.today() - datetime.timedelta(days=days)).isoformat()
    for i, result in enumerate(results):
        if i < n_recent or result.run_date >= earliest or result.version in bases:
            new_results.append(result)
    return new_results\<close>
  The clock and the calendar are a parameter: \<open>isoformat_days_ago days\<close> is the ISO date
  of the day \<open>days\<close> days before today. Strings compare as in Python, character by
  character.
\<close>

definition summarize_results ::
  "(int \<Rightarrow> string) \<Rightarrow> result list \<Rightarrow> string list \<Rightarrow> int \<Rightarrow> int \<Rightarrow> result list" where
  "summarize_results isoformat_days_ago results bases_list n_recent days =
     (let earliest = isoformat_days_ago days in
      map snd (filter (\<lambda>(i, r). int i < n_recent \<or> earliest \<le> run_date r \<or> version r \<in> set bases_list)
                 (enumerate 0 results)))"

text \<open>
  "Among the \<open>n\<close> most recent", in the words of the specification: the result is in the
  list, and fewer than \<open>n\<close> results of the list have a later date. The date is whatever
  orders the results in time (\<open>date_of\<close>): the run date, or the date of the commit.
\<close>

definition among_most_recent ::
  "(result \<Rightarrow> 'k::linorder) \<Rightarrow> nat \<Rightarrow> result list \<Rightarrow> result \<Rightarrow> bool" where
  "among_most_recent date_of n results r \<longleftrightarrow>
     r \<in> set results \<and> length (filter (\<lambda>r'. date_of r < date_of r') results) < n"

text \<open>A raw result run on the given date for the given version, for examples.\<close>

definition result_on :: "string \<Rightarrow> string \<Rightarrow> result" where
  "result_on d v = \<lparr>filename = [''results'', d, ''bm.json''], run_date = d, version = v,
             result_info = (Some ''raw results'', None), bases = []\<rparr>"

text \<open>
  The files on disk are an association list from paths to what is there, a file or a
  directory, in the order in which \<open>os.listdir\<close> reports them; the empty path is the
  current directory, which always exists. \<open>name\<close>, \<open>parent\<close>, \<open>stem\<close> and \<open>with_suffix\<close>
  are those of \<open>pathlib\<close> in Python 3.12: the stem is the name up to its last dot, unless
  that dot is the first or the last character.
\<close>

datatype kind = File | Directory

type_synonym fs = "(path \<times> kind) list"

definition name :: "path \<Rightarrow> string" where
  "name p = (if p = [] then [] else last p)"

definition parent :: "path \<Rightarrow> path" where
  "parent p = butlast p"

definition path_stem :: "string \<Rightarrow> string" where
  "path_stem n =
     (let k = length (takeWhile (\<lambda>c. c \<noteq> CHR ''.'') (rev n)) in
      if k < length n \<and> 0 < length n - 1 - k \<and> 0 < k then take (length n - 1 - k) n else n)"

definition with_suffix :: "path \<Rightarrow> string \<Rightarrow> py_error + path" where
  "with_suffix p ext =
     (if name p = [] then Inl ValueError else Inr (parent p @ [path_stem (name p) @ ext]))"

text \<open>
  \<^verbatim>\<open>re.match(r"(?P<root>.*)-vs-(?P<base>.*)", s)\<close>: both groups are greedy and stay within
  the first line, so \<open>root\<close> ends at the last \<open>-vs-\<close> of that line and \<open>base\<close> is the rest
  of the line; the result is the pair of the two groups, or \<open>None\<close> without a match.
\<close>

fun match_vs :: "string \<Rightarrow> (string \<times> string) option" where
  "match_vs [] = None"
| "match_vs (c # cs) =
     (case match_vs cs of
        Some (root_part, base_part) \<Rightarrow> Some (c # root_part, base_part)
      | None \<Rightarrow> if prefix ''-vs-'' (c # cs) then Some ([], drop 4 (c # cs)) else None)"

definition re_match_vs :: "string \<Rightarrow> (string \<times> string) option" where
  "re_match_vs s = match_vs (takeWhile (\<lambda>c. c \<noteq> CHR 0x0A) s)"

text \<open>
  \<open>Path.exists\<close> and \<open>Path.is_dir\<close>; \<open>iterdir\<close> lists the children of a directory, files
  and sub-directories alike, once, before the loop body runs, and raises
  \<open>FileNotFoundError\<close> when there is no such directory and \<open>NotADirectoryError\<close> when the
  path is a file; \<open>unlink\<close> removes a file and raises \<open>IsADirectoryError\<close> on a directory
  and \<open>FileNotFoundError\<close> on a missing path; \<open>write_file\<close> is \<open>open(path, "w")\<close> followed
  by the writes: it creates the file when it is missing and its directory exists.
\<close>

definition path_exists :: "fs \<Rightarrow> path \<Rightarrow> bool" where
  "path_exists files p = (case dict_get files p of None \<Rightarrow> p = [] | Some k \<Rightarrow> True)"

definition is_dir :: "fs \<Rightarrow> path \<Rightarrow> bool" where
  "is_dir files p = (case dict_get files p of None \<Rightarrow> p = [] | Some k \<Rightarrow> k = Directory)"

definition iterdir :: "fs \<Rightarrow> path \<Rightarrow> py_error + path list" where
  "iterdir files dir =
     (if is_dir files dir
      then Inr (remdups (filter (\<lambda>p. p \<noteq> [] \<and> parent p = dir) (map fst files)))
      else if path_exists files dir then Inl NotADirectoryError
      else Inl FileNotFoundError)"

definition unlink :: "fs \<Rightarrow> path \<Rightarrow> py_error + fs" where
  "unlink files p =
     (if is_dir files p then Inl IsADirectoryError
      else if path_exists files p then Inr (filter (\<lambda>entry. fst entry \<noteq> p) files)
      else Inl FileNotFoundError)"

definition write_file :: "fs \<Rightarrow> path \<Rightarrow> py_error + fs" where
  "write_file files p =
     (if is_dir files p then Inl IsADirectoryError
      else if path_exists files p then Inr files
      else if is_dir files (parent p) then Inr (files @ [(p, File)])
      else if path_exists files (parent p) then Inl NotADirectoryError
      else Inl FileNotFoundError)"

text \<open>
  \<^verbatim>\<open>RESULT_TYPES = {
    "raw results": {".md": write_markdown_results, ".png": write_plot_results},
    "pystats raw": {".md": write_pystats_diff},
    None: {},
}\<close>
  Any other key raises \<open>KeyError\<close>.
\<close>

datatype writer = Write_markdown_results | Write_plot_results | Write_pystats_diff

definition RESULT_TYPES :: "string option \<Rightarrow> (string \<times> writer) list option" where
  "RESULT_TYPES kind_of_result =
     (if kind_of_result = Some ''raw results''
      then Some [(''.md'', Write_markdown_results), (''.png'', Write_plot_results)]
      else if kind_of_result = Some ''pystats raw'' then Some [(''.md'', Write_pystats_diff)]
      else if kind_of_result = None then Some []
      else None)"

text \<open>
  The writers, by the files that exist afterwards. \<open>write_markdown_results\<close> and
  \<open>write_pystats_diff\<close> remove an existing file and take a fresh copy of the comparison
  (\<open>compare.copy()\<close> of \<open>result.py\<close>, a parameter), return when its \<open>contents\<close> is \<open>None\<close>, and
  write the file otherwise. \<open>write_plot_results\<close> saves the plot of \<open>plot.plot_diff\<close>. An
  exception of the file system ends the writer.
\<close>

definition write_markdown_results ::
  "(comparison \<Rightarrow> comparison) \<Rightarrow> path \<Rightarrow> comparison \<Rightarrow> fs \<Rightarrow> py_error + fs" where
  "write_markdown_results copy file_name compare files =
     (case (if path_exists files file_name
            then (case unlink files file_name of
                    Inl err \<Rightarrow> Inl err
                  | Inr files1 \<Rightarrow> Inr (files1, copy compare))
            else Inr (files, compare)) of
        Inl err \<Rightarrow> Inl err
      | Inr (files1, compare1) \<Rightarrow>
          (case contents compare1 of
             None \<Rightarrow> Inr files1
           | Some text \<Rightarrow> write_file files1 file_name))"

definition write_plot_results :: "path \<Rightarrow> comparison \<Rightarrow> fs \<Rightarrow> py_error + fs" where
  "write_plot_results file_name compare files = write_file files file_name"

definition write_pystats_diff ::
  "(comparison \<Rightarrow> comparison) \<Rightarrow> path \<Rightarrow> comparison \<Rightarrow> fs \<Rightarrow> py_error + fs" where
  "write_pystats_diff copy file_name compare files =
     (case (if path_exists files file_name
            then (case unlink files file_name of
                    Inl err \<Rightarrow> Inl err
                  | Inr files1 \<Rightarrow> Inr (files1, copy compare))
            else Inr (files, compare)) of
        Inl err \<Rightarrow> Inl err
      | Inr (files1, compare1) \<Rightarrow>
          (case contents compare1 of
             None \<Rightarrow> Inr files1
           | Some text \<Rightarrow> write_file files1 file_name))"

text \<open>
  The first loop of \<open>save_generated_results\<close>, for one result:
  \<^verbatim>\<open>for compare in result.bases.values():
    if compare.filename is not None:
        for suffix, func in RESULT_TYPES[result.result_info[0]].items():
            filename = compare.filename.with_suffix(suffix)
            if not filename.exists() or force:
                func(filename, compare)\<close>
\<close>

fun run_writer ::
  "(comparison \<Rightarrow> comparison) \<Rightarrow> writer \<Rightarrow> path \<Rightarrow> comparison \<Rightarrow> fs \<Rightarrow> py_error + fs" where
  "run_writer copy Write_markdown_results = write_markdown_results copy"
| "run_writer copy Write_plot_results = write_plot_results"
| "run_writer copy Write_pystats_diff = write_pystats_diff copy"

fun write_all ::
  "(comparison \<Rightarrow> comparison) \<Rightarrow> bool \<Rightarrow> path \<Rightarrow> comparison \<Rightarrow> (string \<times> writer) list \<Rightarrow> fs
     \<Rightarrow> py_error + fs" where
  "write_all copy force base_filename compare [] files = Inr files"
| "write_all copy force base_filename compare ((ext, func) # rest) files =
     (case with_suffix base_filename ext of
        Inl err \<Rightarrow> Inl err
      | Inr file_name \<Rightarrow>
          (case (if \<not> path_exists files file_name \<or> force
                 then run_writer copy func file_name compare files
                 else Inr files) of
             Inl err \<Rightarrow> Inl err
           | Inr files1 \<Rightarrow> write_all copy force base_filename compare rest files1))"

fun write_comparisons ::
  "(comparison \<Rightarrow> comparison) \<Rightarrow> bool \<Rightarrow> result \<Rightarrow> comparison list \<Rightarrow> fs \<Rightarrow> py_error + fs" where
  "write_comparisons copy force result [] files = Inr files"
| "write_comparisons copy force result (compare # rest) files =
     (case cmp_filename compare of
        None \<Rightarrow> write_comparisons copy force result rest files
      | Some base_filename \<Rightarrow>
          (case RESULT_TYPES (fst (result_info result)) of
             None \<Rightarrow> Inl KeyError
           | Some writers \<Rightarrow>
               (case write_all copy force base_filename compare writers files of
                  Inl err \<Rightarrow> Inl err
                | Inr files1 \<Rightarrow> write_comparisons copy force result rest files1)))"

text \<open>
  The second loop, which removes the outdated comparison files of one result:
  \<^verbatim>\<open>for filename in result.filename.parent.iterdir():
    match = re.match(r"(?P<root>.*)-vs-(?P<base>.*)", filename.stem)
    if match is not None:
        if (
            match.group("root") == result.filename.stem
            and match.group("base") not in result.bases
        ) or not (filename.parent / (match.group("root") + ".json")).exists():
            filename.unlink()\<close>
  \<open>artifact_of\<close> is the match, \<open>primary\<close> the result file that the match names, \<open>outdated\<close>
  the condition under which the file is removed.
\<close>

definition artifact_of :: "path \<Rightarrow> (string \<times> string) option" where
  "artifact_of file_name = re_match_vs (path_stem (name file_name))"

definition primary :: "path \<Rightarrow> string \<Rightarrow> path" where
  "primary file_name root_part = parent file_name @ [root_part @ ''.json'']"

definition outdated :: "result \<Rightarrow> fs \<Rightarrow> path \<Rightarrow> bool" where
  "outdated result files file_name =
     (case artifact_of file_name of
        None \<Rightarrow> False
      | Some (root_part, base_part) \<Rightarrow>
          (root_part = path_stem (name (filename result))
             \<and> dict_get (bases result) base_part = None)
          \<or> \<not> path_exists files (primary file_name root_part))"

fun remove_each :: "result \<Rightarrow> path list \<Rightarrow> fs \<Rightarrow> py_error + fs" where
  "remove_each result [] files = Inr files"
| "remove_each result (file_name # rest) files =
     (if outdated result files file_name
      then (case unlink files file_name of
              Inl err \<Rightarrow> Inl err
            | Inr files1 \<Rightarrow> remove_each result rest files1)
      else remove_each result rest files)"

definition remove_outdated :: "result \<Rightarrow> fs \<Rightarrow> py_error + fs" where
  "remove_outdated result files =
     (case iterdir files (parent (filename result)) of
        Inl err \<Rightarrow> Inl err
      | Inr listing \<Rightarrow> remove_each result listing files)"

text \<open>
  \<^verbatim>\<open>def save_generated_results(results, force=False):
    for result in results:
        ... the two loops above ...\<close>
\<close>

fun save_generated_results ::
  "(comparison \<Rightarrow> comparison) \<Rightarrow> result list \<Rightarrow> bool \<Rightarrow> fs \<Rightarrow> py_error + fs" where
  "save_generated_results copy [] force files = Inr files"
| "save_generated_results copy (result # rest) force files =
     (case write_comparisons copy force result (map snd (bases result)) files of
        Inl err \<Rightarrow> Inl err
      | Inr files1 \<Rightarrow>
          (case remove_outdated result files1 of
             Inl err \<Rightarrow> Inl err
           | Inr files2 \<Rightarrow> save_generated_results copy rest force files2))"

text \<open>
  Two examples. The result \<open>r.json\<close> of the directory \<open>results/bm-1\<close>, whose only base is
  \<open>base\<close>, on a disk that still holds its reports against the base \<open>3.10.4\<close> and a report
  whose result file is gone. And a result for a branch named \<open>foo-vs-bar\<close>, whose file
  \<open>bm-foo-vs-bar.json\<close> stands in \<open>results/bm-2\<close> beside its two reports against \<open>base\<close>.
\<close>

definition example_result :: result where
  "example_result =
     \<lparr>filename = [''results'', ''bm-1'', ''r.json''], run_date = ''2024-06-01'',
      version = ''3.13.0'', result_info = (Some ''raw results'', Some ''base''),
      bases = [(''base'', \<lparr>cmp_filename = Some [''results'', ''bm-1'', ''r-vs-base.md''],
                             contents = Some ''table''\<rparr>)]\<rparr>"

definition example_files :: fs where
  "example_files =
     [([''results''], Directory), ([''results'', ''bm-1''], Directory),
      ([''results'', ''bm-1'', ''r.json''], File),
      ([''results'', ''bm-1'', ''r-vs-base.md''], File),
      ([''results'', ''bm-1'', ''r-vs-base.png''], File),
      ([''results'', ''bm-1'', ''r-vs-3.10.4.md''], File),
      ([''results'', ''bm-1'', ''r-vs-3.10.4.png''], File),
      ([''results'', ''bm-1'', ''README.md''], File),
      ([''results'', ''bm-1'', ''gone-vs-base.md''], File)]"

definition vs_result :: result where
  "vs_result =
     \<lparr>filename = [''results'', ''bm-2'', ''bm-foo-vs-bar.json''], run_date = ''2024-06-01'',
      version = ''3.13.0'', result_info = (Some ''raw results'', Some ''base''),
      bases = [(''base'',
                \<lparr>cmp_filename = Some [''results'', ''bm-2'', ''bm-foo-vs-bar-vs-base.md''],
                   contents = Some ''table''\<rparr>)]\<rparr>"

definition vs_files :: fs where
  "vs_files =
     [([''results''], Directory), ([''results'', ''bm-2''], Directory),
      ([''results'', ''bm-2'', ''bm-foo-vs-bar.json''], File),
      ([''results'', ''bm-2'', ''bm-foo-vs-bar-vs-base.md''], File),
      ([''results'', ''bm-2'', ''bm-foo-vs-bar-vs-base.png''], File)]"

section \<open>Properties of the pairwise comparison\<close>

lemma remove_outliers_Nil: "remove_outliers N [] m = []"
  by (simp add: remove_outliers_def)

lemma exact_simps:
  "np_mean exact = exact_mean" "np_std exact = exact_std" "np_subtract exact a b = a - b"
  "np_multiply exact a b = a * b" "np_divide exact a b = a / b"
  by (simp_all add: exact_def)

lemma outlier_mask_exact:
  assumes "vs \<noteq> []"
  shows "outlier_mask exact vs m v \<longleftrightarrow>
     \<bar>v - sum_list vs / real (length vs)\<bar>
       < m * sqrt (sum_list (map (\<lambda>v. (v - sum_list vs / real (length vs)) ^ 2) vs) / real (length vs))"
  using assms by (simp add: outlier_mask_def exact_simps exact_mean_def exact_std_def)

lemma remove_outliers_exact:
  assumes "vs \<noteq> []"
  shows "remove_outliers exact vs m =
     filter (\<lambda>v. \<bar>v - sum_list vs / real (length vs)\<bar>
            < m * sqrt (sum_list (map (\<lambda>v. (v - sum_list vs / real (length vs)) ^ 2) vs) / real (length vs))) vs"
  unfolding remove_outliers_def using outlier_mask_exact [OF assms, of m]
  by (intro filter_cong) simp_all

lemma abs_less_two_sqrt: "\<bar>x\<bar> < 2 * sqrt v \<longleftrightarrow> x\<^sup>2 < 4 * v"
proof -
  have "2 * sqrt v = sqrt (4 * v)"
    by (simp add: real_sqrt_mult)
  moreover have "\<bar>x\<bar> = sqrt (x\<^sup>2)"
    by simp
  ultimately show ?thesis
    by (metis real_sqrt_less_iff)
qed

text \<open>
  Claim C1. Whenever the significance test reports "not significant", \<open>calculate_diffs\<close>
  returns an absent ratio distribution and the mean ratio 0.0, whatever the flag
  \<open>outlier_rejection\<close> is, and the only call it makes is the significance test: outlier
  rejection is applied to neither input.
\<close>

theorem calculate_diffs_not_significant:
  assumes "is_significant ref_values head_values = Inr (False, t_score)"
  shows "fst (calculate_diffs N is_significant ref_values head_values outlier_rejection)
           = Inr (None, Num 0)
       \<and> snd (calculate_diffs N is_significant ref_values head_values outlier_rejection)
           = [Is_significant ref_values head_values]
       \<and> Remove_outliers ref_values
           \<notin> set (snd (calculate_diffs N is_significant ref_values head_values outlier_rejection))
       \<and> Remove_outliers head_values
           \<notin> set (snd (calculate_diffs N is_significant ref_values head_values outlier_rejection))"
  using assms by (simp add: calculate_diffs_def)

theorem calculate_diffs_not_significant_witness:
  "fst (calculate_diffs exact (\<lambda>r h. (Inr (False, 0) :: unit + bool \<times> real)) [1, 2, 3] [1, 2, 4] True)
     = Inr (None, Num 0)
   \<and> snd (calculate_diffs exact (\<lambda>r h. (Inr (False, 0) :: unit + bool \<times> real)) [1, 2, 3] [1, 2, 4] True)
     = [Is_significant [1, 2, 3] [1, 2, 4]]"
  using calculate_diffs_not_significant
    [of "\<lambda>r h. (Inr (False, 0) :: unit + bool \<times> real)" "[1, 2, 3]" "[1, 2, 4]" 0 exact True]
  by simp

text \<open>
  What the branch for a significant difference computes: the sorted flattened outer
  product of the reference values with the reciprocals of the head values, both after
  outlier rejection when that is switched on, and numpy's mean of it.
\<close>

lemma calculate_diffs_significant_branch:
  assumes "is_significant ref_values head_values = Inr (True, t_score)"
    and "0 \<notin> set (if outlier_rejection then remove_outliers N head_values 2 else head_values)"
  shows "fst (calculate_diffs N is_significant ref_values head_values outlier_rejection)
           = Inr (Some (sort (flatten (outer N
                   (if outlier_rejection then remove_outliers N ref_values 2 else ref_values)
                   (map (\<lambda>h. np_divide N 1 h)
                      (if outlier_rejection then remove_outliers N head_values 2
                       else head_values))))),
                  np_mean N (sort (flatten (outer N
                   (if outlier_rejection then remove_outliers N ref_values 2 else ref_values)
                   (map (\<lambda>h. np_divide N 1 h)
                      (if outlier_rejection then remove_outliers N head_values 2
                       else head_values))))))"
  using assms by (simp add: calculate_diffs_def Let_def)

text \<open>
  Claim C2 fails on the code. For five reference samples 10.0 and five head samples 5.0
  on which the significance test reports a significant difference, the claim gives the
  distribution of the 25 ratios 2.0 and the mean ratio 2.0; that is what \<open>calculate_diffs\<close>
  returns with outlier rejection switched off. With outlier rejection, the default, the
  deviation of either side is 0, the strict comparison \<open>0 < 0\<close> removes every sample of
  both sides, and \<open>calculate_diffs\<close> returns an empty distribution and the mean \<open>nan\<close>.
  The same happens when the head samples alone are equal.
\<close>

theorem calculate_diffs_constant_samples:
  "calculate_diffs exact (\<lambda>r h. (Inr (True, 0) :: unit + bool \<times> real))
     [10, 10, 10, 10, 10] [5, 5, 5, 5, 5] True
     = (Inr (Some [], NaN),
        [Is_significant [10, 10, 10, 10, 10] [5, 5, 5, 5, 5],
         Remove_outliers [10, 10, 10, 10, 10], Remove_outliers [5, 5, 5, 5, 5]])
   \<and> remove_outliers exact [10, 10, 10, 10, 10] 2 = []
   \<and> remove_outliers exact [5, 5, 5, 5, 5] 2 = []
   \<and> fst (calculate_diffs exact (\<lambda>r h. (Inr (True, 0) :: unit + bool \<times> real))
        [10, 10, 10, 10, 10] [5, 5, 5, 5, 5] False)
     = Inr (Some (replicate 25 2), Num 2)
   \<and> calculate_diffs exact (\<lambda>r h. (Inr (True, 0) :: unit + bool \<times> real))
        [10, 11, 10, 11, 10] [5, 5, 5, 5, 5] True
     = (Inr (Some [], NaN),
        [Is_significant [10, 11, 10, 11, 10] [5, 5, 5, 5, 5],
         Remove_outliers [10, 11, 10, 11, 10], Remove_outliers [5, 5, 5, 5, 5]])"
proof -
  have r: "remove_outliers exact [10, 10, 10, 10, 10] 2 = []"
    "remove_outliers exact [5, 5, 5, 5, 5] 2 = []"
    by (simp_all add: remove_outliers_exact)
  have kept: "remove_outliers exact [10, 11, 10, 11, 10] 2 = [10, 11, 10, 11, 10]"
    by (simp add: remove_outliers_exact abs_less_two_sqrt power2_eq_square
        del: real_sqrt_divide)
  have a: "calculate_diffs exact (\<lambda>r h. (Inr (True, 0) :: unit + bool \<times> real))
     [10, 10, 10, 10, 10] [5, 5, 5, 5, 5] True
     = (Inr (Some [], NaN),
        [Is_significant [10, 10, 10, 10, 10] [5, 5, 5, 5, 5],
         Remove_outliers [10, 10, 10, 10, 10], Remove_outliers [5, 5, 5, 5, 5]])"
    by (simp add: calculate_diffs_def r outer_def flatten_def exact_simps exact_mean_def)
  have b: "fst (calculate_diffs exact (\<lambda>r h. (Inr (True, 0) :: unit + bool \<times> real))
        [10, 10, 10, 10, 10] [5, 5, 5, 5, 5] False)
     = Inr (Some (replicate 25 2), Num 2)"
    by (simp add: calculate_diffs_def outer_def flatten_def exact_simps exact_mean_def
        numeral_eq_Suc)
  have c: "calculate_diffs exact (\<lambda>r h. (Inr (True, 0) :: unit + bool \<times> real))
        [10, 11, 10, 11, 10] [5, 5, 5, 5, 5] True
     = (Inr (Some [], NaN),
        [Is_significant [10, 11, 10, 11, 10] [5, 5, 5, 5, 5],
         Remove_outliers [10, 11, 10, 11, 10], Remove_outliers [5, 5, 5, 5, 5]])"
    by (simp add: calculate_diffs_def r kept outer_def flatten_def exact_simps exact_mean_def)
  show ?thesis
    using r a b c by simp
qed

text \<open>
  Whatever the rounding: when the deviation that numpy computes is 0 (and \<open>m\<close> times 0 is
  not positive), no sample passes the strict comparison.
\<close>

lemma remove_outliers_zero_deviation:
  assumes "np_std N vs = Num 0" and "np_multiply N m 0 \<le> 0"
  shows "remove_outliers N vs m = []"
proof -
  have "\<not> outlier_mask N vs m v" for v
    using assms by (auto simp: outlier_mask_def split: npfloat.splits)
  then show ?thesis
    by (simp add: remove_outliers_def)
qed

text \<open>
  Claim C3 fails on the code. A sample lies more than 2 standard deviations from the mean
  when its distance exceeds twice the deviation, and the claim keeps every other sample
  (\<open>drop_beyond_two_sigma\<close>). \<open>remove_outliers\<close> keeps a sample only when its distance is
  strictly less than twice the deviation: of a sequence of equal samples, whose deviation
  is 0, every sample is removed, and in \<open>[0, 0, 0, 0, 5]\<close>, with mean 1 and deviation 2,
  the sample 5 lies exactly 2 deviations away and is removed.
\<close>

theorem remove_outliers_drops_boundary_samples:
  "remove_outliers exact [1, 1] 2 = []
   \<and> drop_beyond_two_sigma [1, 1] = [1, 1]
   \<and> remove_outliers exact [10, 10, 10, 10, 10] 2 = []
   \<and> drop_beyond_two_sigma [10, 10, 10, 10, 10] = [10, 10, 10, 10, 10]
   \<and> remove_outliers exact [0, 0, 0, 0, 5] 2 = [0, 0, 0, 0]
   \<and> drop_beyond_two_sigma [0, 0, 0, 0, 5] = [0, 0, 0, 0, 5]"
  by (simp add: remove_outliers_exact drop_beyond_two_sigma_def)

lemma remove_outliers_again:
  assumes "np_mean N vs = Num mu" and "np_std N vs = Num sd"
  shows "remove_outliers N vs m = filter (\<lambda>v. \<bar>np_subtract N v mu\<bar> < np_multiply N m sd) vs"
  unfolding remove_outliers_def
  by (intro filter_cong) (simp_all add: outlier_mask_def assms)

lemma remove_outliers_nan:
  assumes "np_mean N vs = NaN \<or> np_std N vs = NaN"
  shows "remove_outliers N vs m = []"
proof -
  have "\<not> outlier_mask N vs m v" for v
    using assms by (auto simp: outlier_mask_def split: npfloat.splits)
  then show ?thesis
    by (simp add: remove_outliers_def)
qed

text \<open>
  Claim C4, as the code has it. A second application of \<open>remove_outliers\<close> recomputes mean
  and deviation from the reduced sequence and removes exactly those of its samples whose
  distance from the new mean is not strictly less than \<open>m\<close> times the new deviation, all
  as numpy computes them. So applying \<open>remove_outliers\<close> twice yields the same sequence as
  applying it once exactly when the reduced sequence holds no such sample; when the new
  mean or deviation is \<open>nan\<close>, the second application returns the empty sequence.
\<close>

theorem remove_outliers_twice:
  "(np_mean N (remove_outliers N vs m) = Num mu \<and> np_std N (remove_outliers N vs m) = Num sd \<longrightarrow>
      remove_outliers N (remove_outliers N vs m) m
        = filter (\<lambda>v. \<bar>np_subtract N v mu\<bar> < np_multiply N m sd) (remove_outliers N vs m)
      \<and> (remove_outliers N (remove_outliers N vs m) m = remove_outliers N vs m
           \<longleftrightarrow> (\<forall>v \<in> set (remove_outliers N vs m).
                  \<bar>np_subtract N v mu\<bar> < np_multiply N m sd)))
   \<and> (np_mean N (remove_outliers N vs m) = NaN \<or> np_std N (remove_outliers N vs m) = NaN \<longrightarrow>
        remove_outliers N (remove_outliers N vs m) m = [])"
proof (intro conjI impI)
  assume a: "np_mean N (remove_outliers N vs m) = Num mu
      \<and> np_std N (remove_outliers N vs m) = Num sd"
  then have eq: "remove_outliers N (remove_outliers N vs m) m
      = filter (\<lambda>v. \<bar>np_subtract N v mu\<bar> < np_multiply N m sd) (remove_outliers N vs m)"
    by (intro remove_outliers_again) simp_all
  then show "remove_outliers N (remove_outliers N vs m) m
      = filter (\<lambda>v. \<bar>np_subtract N v mu\<bar> < np_multiply N m sd) (remove_outliers N vs m)" .
  show "remove_outliers N (remove_outliers N vs m) m = remove_outliers N vs m
      \<longleftrightarrow> (\<forall>v \<in> set (remove_outliers N vs m). \<bar>np_subtract N v mu\<bar> < np_multiply N m sd)"
    unfolding eq by (simp add: filter_id_conv)
next
  assume "np_mean N (remove_outliers N vs m) = NaN \<or> np_std N (remove_outliers N vs m) = NaN"
  then show "remove_outliers N (remove_outliers N vs m) m = []"
    by (rule remove_outliers_nan)
qed

text \<open>
  The samples \<open>[1, 2, 3, 4, 5, 100]\<close> lose the 100; the remaining samples have mean 3 and
  deviation \<open>sqrt 2\<close>, all of them lie within twice that deviation, and a second
  application changes nothing.
\<close>

theorem remove_outliers_twice_witness:
  "remove_outliers exact [1, 2, 3, 4, 5, 100] 2 = [1, 2, 3, 4, 5]
   \<and> np_mean exact [1, 2, 3, 4, 5] = Num 3
   \<and> np_std exact [1, 2, 3, 4, 5] = Num (sqrt 2)
   \<and> filter (\<lambda>v. \<bar>v - 3\<bar> < 2 * sqrt 2) [1, 2, 3, 4, 5] = [1, 2, 3, 4, 5]
   \<and> remove_outliers exact (remove_outliers exact [1, 2, 3, 4, 5, 100] 2) 2
       = remove_outliers exact [1, 2, 3, 4, 5, 100] 2"
proof -
  have first: "remove_outliers exact [1, 2, 3, 4, 5, 100] 2 = [1, 2, 3, 4, 5]"
    by (simp add: remove_outliers_exact abs_less_two_sqrt power2_eq_square
        del: real_sqrt_divide)
  have stats: "np_mean exact [1, 2, 3, 4, 5] = Num 3"
    "np_std exact [1, 2, 3, 4, 5] = Num (sqrt 2)"
    by (simp_all add: exact_simps exact_mean_def exact_std_def)
  have within: "\<forall>v \<in> set [1, 2, 3, 4, 5 :: real]. \<bar>v - 3\<bar> < 2 * sqrt 2"
    by (simp add: abs_less_two_sqrt)
  then have kept: "filter (\<lambda>v. \<bar>v - 3\<bar> < 2 * sqrt 2) [1, 2, 3, 4, 5] = [1, 2, 3, 4, 5]"
    by (simp only: filter_id_conv)
  show ?thesis
    using remove_outliers_twice [of exact "[1, 2, 3, 4, 5, 100]" 2 3 "sqrt 2"] first stats within
      kept
    by (simp add: exact_simps)
qed

text \<open>
  Idempotence itself fails. The samples \<open>[0, 0, 0, 0, 0, 1, 2]\<close> have mean 3/7 and variance
  26/49: the first application removes the 2. The remaining samples have mean 1/6 and
  variance 5/36, and the second application removes the 1 as well. Likewise nine samples 0
  and one sample 10 lose the 10 first (mean 1, deviation 3), and everything in the second
  application (deviation 0).
\<close>

theorem remove_outliers_not_idempotent_counterexample:
  "remove_outliers exact [0, 0, 0, 0, 0, 1, 2] 2 = [0, 0, 0, 0, 0, 1]
   \<and> remove_outliers exact (remove_outliers exact [0, 0, 0, 0, 0, 1, 2] 2) 2 = [0, 0, 0, 0, 0]
   \<and> remove_outliers exact [0, 0, 0, 0, 0, 0, 0, 0, 0, 10] 2 = [0, 0, 0, 0, 0, 0, 0, 0, 0]
   \<and> remove_outliers exact (remove_outliers exact [0, 0, 0, 0, 0, 0, 0, 0, 0, 10] 2) 2 = []"
proof -
  have first: "remove_outliers exact [0, 0, 0, 0, 0, 1, 2] 2 = [0, 0, 0, 0, 0, 1]"
    by (simp add: remove_outliers_exact abs_less_two_sqrt power2_eq_square
        del: real_sqrt_divide)
  have second: "remove_outliers exact [0, 0, 0, 0, 0, 1] 2 = [0, 0, 0, 0, 0]"
    by (simp add: remove_outliers_exact abs_less_two_sqrt power2_eq_square
        del: real_sqrt_divide)
  have degenerate:
    "remove_outliers exact [0, 0, 0, 0, 0, 0, 0, 0, 0, 10] 2 = [0, 0, 0, 0, 0, 0, 0, 0, 0]"
    "remove_outliers exact [0, 0, 0, 0, 0, 0, 0, 0, 0] 2 = []"
    by (simp_all add: remove_outliers_exact)
  show ?thesis
    by (simp only: first second degenerate simp_thms)
qed

text \<open>
  Claim C8, as the code has it. \<open>calculate_diffs\<close> has no check for missing or empty
  sequences: on every input its first action is the call of the significance test on the
  sequences as given. An exception of the test propagates unchanged, and a verdict "not
  significant" yields the result \<open>(None, 0.0)\<close>, for empty sequences as for any other.
\<close>

theorem calculate_diffs_test_first:
  "(\<exists>rest. snd (calculate_diffs N is_significant ref_values head_values outlier_rejection)
       = Is_significant ref_values head_values # rest)
   \<and> (\<forall>e. is_significant ref_values head_values = Inl e \<longrightarrow>
         calculate_diffs N is_significant ref_values head_values outlier_rejection
           = (Inl (Raised e), [Is_significant ref_values head_values]))
   \<and> (\<forall>t. is_significant ref_values head_values = Inr (False, t) \<longrightarrow>
         calculate_diffs N is_significant ref_values head_values outlier_rejection
           = (Inr (None, Num 0), [Is_significant ref_values head_values]))"
  by (auto simp: calculate_diffs_def Let_def split: sum.splits prod.splits)

theorem calculate_diffs_test_first_witness:
  "(\<exists>rest. snd (calculate_diffs exact (\<lambda>r h. (Inl () :: unit + bool \<times> real)) [] [] True)
       = Is_significant [] [] # rest)
   \<and> calculate_diffs exact (\<lambda>r h. (Inl () :: unit + bool \<times> real)) [] [] True
       = (Inl (Raised ()), [Is_significant [] []])"
  using calculate_diffs_test_first [of exact "\<lambda>r h. (Inl () :: unit + bool \<times> real)" "[]" "[]" True]
  by simp

text \<open>
  On empty input the significance test is invoked, and what it does decides the outcome:
  its own exception, the sentinel \<open>(None, 0.0)\<close>, or an empty distribution with mean \<open>nan\<close>.
\<close>

theorem calculate_diffs_empty_input_counterexample:
  "calculate_diffs exact
     (\<lambda>r h. if r = [] \<or> h = [] then Inl ''StatisticsError'' else Inr (False, 0)) [] [] True
     = (Inl (Raised ''StatisticsError''), [Is_significant [] []])
   \<and> calculate_diffs exact (\<lambda>r h. (Inr (False, 0) :: unit + bool \<times> real)) [] [1, 2] True
     = (Inr (None, Num 0), [Is_significant [] [1, 2]])
   \<and> calculate_diffs exact (\<lambda>r h. (Inr (True, 0) :: unit + bool \<times> real)) [] [] True
     = (Inr (Some [], NaN), [Is_significant [] [], Remove_outliers [], Remove_outliers []])"
  by (simp add: calculate_diffs_def remove_outliers_Nil outer_def flatten_def exact_simps
      exact_mean_def)

section \<open>Properties of the comparison-value cache\<close>

text \<open>
  Claim C5. The cache memoizes. If the key of \<open>(ref, r, base)\<close> is present,
  \<open>get_comparison_value\<close> returns the stored value and changes nothing: the pipeline is not
  started. If the key is absent and the pipeline returns \<open>v\<close>, the first lookup starts the
  pipeline once, stores \<open>v\<close> under the key and returns it, and a second lookup of the same
  key, for whatever arguments produce it, returns \<open>v\<close> without starting the pipeline: two
  successive lookups start it exactly once.
\<close>

theorem get_comparison_value_memoizes:
  "(\<forall>stored. data c (comparison_key ref r base) = Some stored \<longrightarrow>
      get_comparison_value hpt c ref r base = (Inr stored, c))
   \<and> (\<forall>v c1. data c (comparison_key ref r base) = None \<and> hpt ref r base = Inr v
        \<and> c1 = snd (get_comparison_value hpt c ref r base)
        \<and> comparison_key ref' r' base' = comparison_key ref r base \<longrightarrow>
      fst (get_comparison_value hpt c ref r base) = Inr v
      \<and> data c1 = (data c)(comparison_key ref r base \<mapsto> v)
      \<and> computed c1 = computed c @ [(ref, r, base)]
      \<and> get_comparison_value hpt c1 ref' r' base' = (Inr v, c1)
      \<and> length (computed (snd (get_comparison_value hpt c1 ref' r' base')))
          = length (computed c) + 1)"
  by (auto simp: get_comparison_value_def Let_def)

theorem get_comparison_value_memoizes_witness:
  "fst (get_comparison_value (\<lambda>ref r base. (Inr 3 :: unit + real))
          \<lparr>data = Map.empty, computed = []\<rparr> [''results'', ''a.json''] [''results'', ''b.json''] ''base'')
     = Inr 3
   \<and> get_comparison_value (\<lambda>ref r base. (Inr 3 :: unit + real))
         (snd (get_comparison_value (\<lambda>ref r base. (Inr 3 :: unit + real))
                \<lparr>data = Map.empty, computed = []\<rparr>
                [''results'', ''a.json''] [''results'', ''b.json''] ''base''))
         [''results'', ''a.json''] [''results'', ''b.json''] ''base''
     = (Inr 3, \<lparr>data = [''a.json,b.json,base'' \<mapsto> 3],
               computed = [([''results'', ''a.json''], [''results'', ''b.json''], ''base'')]\<rparr>)"
proof -
  let ?hpt = "\<lambda>ref r base. (Inr 3 :: unit + real)"
  let ?c = "\<lparr>data = Map.empty, computed = []\<rparr> :: cache"
  let ?a = "[''results'', ''a.json'']"
  let ?b = "[''results'', ''b.json'']"
  have key: "comparison_key ?a ?b ''base'' = ''a.json,b.json,base''"
    by (simp add: comparison_key_def str_path_def)
  have c1: "snd (get_comparison_value ?hpt ?c ?a ?b ''base'')
      = \<lparr>data = [''a.json,b.json,base'' \<mapsto> 3], computed = [(?a, ?b, ''base'')]\<rparr>"
    by (simp add: get_comparison_value_def key)
  show ?thesis
    using get_comparison_value_memoizes [of ?c ?a ?b "''base''" ?hpt ?a ?b "''base''"]
    by (simp add: key c1)
qed

section \<open>Properties of the fold into nested dictionaries\<close>

lemma dict_get_dict_set: "dict_get (dict_set d k v) k' = (if k' = k then Some v else dict_get d k')"
  by (induction d) auto

lemma dict_set_same: "dict_get d k = Some v \<Longrightarrow> dict_set d k v = d"
  by (induction d) (auto split: if_splits)

lemma dict_set_twice: "dict_set (dict_set d k v) k w = dict_set d k w"
  by (induction d) auto

lemma dict_get_in: "dict_get d k = Some v \<Longrightarrow> (k, v) \<in> set d"
  by (induction d) (auto split: if_splits)

lemma set_dict_set: "set (dict_set d k v) \<subseteq> insert (k, v) (set d)"
  by (induction d) (auto split: if_splits)

lemma recurse_Dict: "recurse entry t = Inr t' \<Longrightarrow> \<exists>d d'. t = Dict d \<and> t' = Dict d'"
  by (cases t)
    (auto simp: Let_def split: if_splits option.splits nested.splits list.splits sum.splits prod.splits)

lemma recurse_idem: "recurse entry t = Inr t' \<Longrightarrow> recurse entry t' = Inr t'"
proof (induction entry t arbitrary: t' rule: recurse.induct)
  case (1 entry xs)
  then show ?case by simp
next
  case (2 entry d)
  show ?case
  proof (cases "length entry = 2")
    case True
    with "2.prems" show ?thesis
      by (auto simp: setdefault_def dict_get_dict_set dict_set_twice dict_set_same
          split: option.splits nested.splits if_splits)
  next
    case False
    with "2.prems" obtain k rest where entry: "entry = k # rest"
      by (cases entry) auto
    obtain sub d1 where sd: "setdefault d k (Dict []) = (sub, d1)"
      by (cases "setdefault d k (Dict [])")
    with "2.prems" False entry obtain sub' where
      sub': "recurse rest sub = Inr sub'" and t': "t' = Dict (dict_set d1 k sub')"
      by (auto split: sum.splits)
    have ih: "recurse rest sub' = Inr sub'"
      using "2.IH" [OF False entry sd [symmetric] refl sub'] .
    have "setdefault (dict_set d1 k sub') k (Dict []) = (sub', dict_set d1 k sub')"
      by (simp add: setdefault_def dict_get_dict_set)
    with ih False entry t' show ?thesis
      by (simp add: dict_set_twice)
  qed
qed

lemma setdefault_present: "dict_get d k = Some x \<Longrightarrow> setdefault d k v = (x, d)"
  by (simp add: setdefault_def)

lemma setdefault_get:
  "setdefault d k v = (x, d1) \<Longrightarrow>
     dict_get d1 k' = (if k' = k then Some x else dict_get d k')"
  by (auto simp: setdefault_def dict_get_dict_set split: option.splits)

lemma recurse_leaf:
  assumes "length entry = 2" and "setdefault d (entry ! 0) (Leaves []) = (x, d1)"
  shows "recurse entry (Dict d) =
     (case dict_get d1 (entry ! 0) of
        None \<Rightarrow> Inl KeyError
      | Some (Leaves xs) \<Rightarrow>
          if entry ! 1 \<notin> set xs
          then Inr (Dict (dict_set d1 (entry ! 0) (Leaves (xs @ [entry ! 1]))))
          else Inr (Dict d1)
      | Some (Dict sub) \<Rightarrow>
          if dict_get sub (entry ! 1) = None then Inl AttributeError else Inr (Dict d1))"
  using assms by simp

lemma recurse_step:
  assumes "length (k # rest) \<noteq> 2" and "setdefault d k (Dict []) = (sub, d1)"
  shows "recurse (k # rest) (Dict d) =
     (case recurse rest sub of
        Inl err \<Rightarrow> Inl err
      | Inr sub' \<Rightarrow> Inr (Dict (dict_set d1 k sub')))"
  using assms by simp

lemma recurse_keys:
  assumes "recurse entry (Dict d) = Inr (Dict d')" and "dict_get d k \<noteq> None"
  shows "dict_get d' k \<noteq> None"
proof (cases "length entry = 2")
  case True
  obtain x d1 where sd: "setdefault d (entry ! 0) (Leaves []) = (x, d1)"
    by (cases "setdefault d (entry ! 0) (Leaves [])")
  have "dict_get d1 k \<noteq> None"
    using setdefault_get [OF sd, of k] assms(2) by (simp split: if_splits)
  then show ?thesis
    using assms(1) unfolding recurse_leaf [OF True sd]
    by (auto simp: dict_get_dict_set split: option.splits nested.splits if_splits)
next
  case False
  with assms(1) obtain k' rest where entry: "entry = k' # rest"
    by (cases entry) auto
  obtain sub d1 where sd: "setdefault d k' (Dict []) = (sub, d1)"
    by (cases "setdefault d k' (Dict [])")
  have "dict_get d1 k \<noteq> None"
    using setdefault_get [OF sd, of k] assms(2) by (simp split: if_splits)
  then show ?thesis
    using assms(1) False unfolding entry recurse_step [OF False [unfolded entry] sd]
    by (auto simp: dict_get_dict_set split: sum.splits)
qed

lemma present_recurse: "present entry t \<Longrightarrow> recurse entry t = Inr t"
proof (induction entry t rule: recurse.induct)
  case (1 entry xs)
  then show ?case by simp
next
  case (2 entry d)
  show ?case
  proof (cases "length entry = 2")
    case True
    with "2.prems" show ?thesis
      by (auto simp: setdefault_def split: option.splits nested.splits)
  next
    case False
    with "2.prems" obtain k rest sub where entry: "entry = k # rest"
      and get: "dict_get d k = Some sub" and p: "present rest sub"
      by (auto split: list.splits option.splits)
    have sd: "setdefault d k (Dict []) = (sub, d)"
      using get by (rule setdefault_present)
    have "recurse rest sub = Inr sub"
      using "2.IH" [OF False entry sd [symmetric] refl p] .
    with False entry sd get show ?thesis
      by (simp add: dict_set_same)
  qed
qed

lemma recurse_present: "recurse entry t = Inr t' \<Longrightarrow> present entry t'"
proof (induction entry t arbitrary: t' rule: recurse.induct)
  case (1 entry xs)
  then show ?case by simp
next
  case (2 entry d)
  show ?case
  proof (cases "length entry = 2")
    case True
    with "2.prems" show ?thesis
      by (auto simp: setdefault_def dict_get_dict_set
          split: option.splits nested.splits if_splits)
  next
    case False
    with "2.prems" obtain k rest where entry: "entry = k # rest"
      by (cases entry) auto
    obtain sub d1 where sd: "setdefault d k (Dict []) = (sub, d1)"
      by (cases "setdefault d k (Dict [])")
    with "2.prems" False entry obtain sub' where
      sub': "recurse rest sub = Inr sub'" and t': "t' = Dict (dict_set d1 k sub')"
      by (auto split: sum.splits)
    have "present rest sub'"
      using "2.IH" [OF False entry sd [symmetric] refl sub'] .
    with False entry t' show ?thesis
      by (simp add: dict_get_dict_set)
  qed
qed

lemma present_leaf:
  "length entry = 2 \<Longrightarrow> present entry (Dict d) =
     (case dict_get d (entry ! 0) of
        None \<Rightarrow> False
      | Some (Leaves xs) \<Rightarrow> entry ! 1 \<in> set xs
      | Some (Dict sub) \<Rightarrow> dict_get sub (entry ! 1) \<noteq> None)"
  by simp

lemma present_step:
  "length (k # rest) \<noteq> 2 \<Longrightarrow> present (k # rest) (Dict d) =
     (case dict_get d k of None \<Rightarrow> False | Some sub \<Rightarrow> present rest sub)"
  by simp

lemma present_Nil: "\<not> present [] t"
  by (cases t) simp_all

lemma present_preserved:
  "recurse entry' t = Inr t' \<Longrightarrow> present entry t \<Longrightarrow> present entry t'"
proof (induction entry' t arbitrary: t' entry rule: recurse.induct)
  case (1 entry' xs)
  then show ?case by simp
next
  case (2 entry' d)
  note prems = "2.prems"
  show ?case
  proof (cases "length entry' = 2")
    case len': True
    obtain x d1 where sd: "setdefault d (entry' ! 0) (Leaves []) = (x, d1)"
      by (cases "setdefault d (entry' ! 0) (Leaves [])")
    note get1 = setdefault_get [OF sd]
    from prems(1) obtain d' where t': "t' = Dict d'"
      using recurse_Dict by blast
    have grow: "\<exists>y'. dict_get d' k = Some y' \<and>
        (y' = y \<or> (\<exists>xs v. y = Leaves xs \<and> y' = Leaves (xs @ [v])))"
      if "dict_get d k = Some y" for k y
    proof -
      have g1: "dict_get d1 k = Some y"
        using that sd by (auto simp: setdefault_def dict_get_dict_set split: option.splits if_splits)
      show ?thesis
        using prems(1) g1 unfolding t' recurse_leaf [OF len' sd]
        by (auto simp: dict_get_dict_set split: option.splits nested.splits if_splits)
    qed
    show ?thesis
    proof (cases "length entry = 2")
      case True
      from prems(2) obtain y where y: "dict_get d (entry ! 0) = Some y"
        unfolding present_leaf [OF True] by (auto split: option.splits)
      from grow [OF y] obtain y' where y': "dict_get d' (entry ! 0) = Some y'"
        and g: "y' = y \<or> (\<exists>xs v. y = Leaves xs \<and> y' = Leaves (xs @ [v]))"
        by blast
      from prems(2) y y' g show ?thesis
        unfolding t' present_leaf [OF True]
        by (auto split: nested.splits)
    next
      case False
      with prems(2) obtain k rest where entry: "entry = k # rest"
        using present_Nil by (cases entry) auto
      from prems(2) obtain y where y: "dict_get d k = Some y" and p: "present rest y"
        unfolding entry present_step [OF False [unfolded entry]] by (auto split: option.splits)
      from grow [OF y] obtain y' where y': "dict_get d' k = Some y'"
        and g: "y' = y \<or> (\<exists>xs v. y = Leaves xs \<and> y' = Leaves (xs @ [v]))"
        by blast
      from p g have "y' = y" by auto
      with p y' show ?thesis
        unfolding t' entry present_step [OF False [unfolded entry]] by simp
    qed
  next
    case len': False
    with prems(1) obtain k' rest' where entry': "entry' = k' # rest'"
      by (cases entry') auto
    obtain sub d1 where sd: "setdefault d k' (Dict []) = (sub, d1)"
      by (cases "setdefault d k' (Dict [])")
    from prems(1) obtain sub' where
      sub': "recurse rest' sub = Inr sub'" and t': "t' = Dict (dict_set d1 k' sub')"
      unfolding entry' recurse_step [OF len' [unfolded entry'] sd]
      by (auto split: sum.splits)
    note ih = "2.IH" [OF len' entry' sd [symmetric] refl sub']
    have get': "dict_get (dict_set d1 k' sub') k =
        (if k = k' then Some sub' else dict_get d k)" for k
      using setdefault_get [OF sd] by (simp add: dict_get_dict_set)
    have old: "sub = x" if "dict_get d k' = Some x" for x
      using sd that by (simp add: setdefault_def)
    from recurse_Dict [OF sub'] obtain s s' where s: "sub = Dict s" "sub' = Dict s'"
      by blast
    show ?thesis
    proof (cases "length entry = 2")
      case True
      from prems(2) obtain y where y: "dict_get d (entry ! 0) = Some y"
        unfolding present_leaf [OF True] by (auto split: option.splits)
      show ?thesis
      proof (cases "entry ! 0 = k'")
        case k: True
        with y old have "y = Dict s" using s by simp
        with prems(2) y have "dict_get s (entry ! 1) \<noteq> None"
          unfolding present_leaf [OF True] by simp
        then have "dict_get s' (entry ! 1) \<noteq> None"
          using recurse_keys [of rest' s s'] sub' s by simp
        then show ?thesis
          unfolding t' present_leaf [OF True] get' using k s by simp
      next
        case False
        with prems(2) show ?thesis
          unfolding t' present_leaf [OF True] get' by simp
      qed
    next
      case False
      with prems(2) obtain k rest where entry: "entry = k # rest"
        using present_Nil by (cases entry) auto
      from prems(2) obtain y where y: "dict_get d k = Some y" and p: "present rest y"
        unfolding entry present_step [OF False [unfolded entry]] by (auto split: option.splits)
      show ?thesis
      proof (cases "k = k'")
        case True
        with y old have "sub = y" by simp
        with p have "present rest sub'" using ih by simp
        with True show ?thesis
          unfolding t' entry present_step [OF False [unfolded entry]] get' by simp
      next
        case False
        with y p show ?thesis
          unfolding t' entry present_step [OF \<open>length entry \<noteq> 2\<close> [unfolded entry]] get' by simp
      qed
    qed
  qed
qed

lemma recurse_all_append:
  "recurse_all (xs @ ys) t =
     (case recurse_all xs t of Inl err \<Rightarrow> Inl err | Inr t' \<Rightarrow> recurse_all ys t')"
  by (induction xs arbitrary: t) (auto split: sum.splits)

lemma recurse_all_present:
  "recurse_all entries t = Inr t' \<Longrightarrow> entry \<in> set entries \<Longrightarrow> present entry t'"
proof (induction entries arbitrary: t)
  case Nil
  then show ?case by simp
next
  case (Cons e es)
  from Cons.prems(1) obtain t1 where t1: "recurse e t = Inr t1" and rest: "recurse_all es t1 = Inr t'"
    by (auto split: sum.splits)
  have keep: "present entry t1 \<Longrightarrow> present entry t'"
    using rest
  proof (induction es arbitrary: t1)
    case Nil
    then show ?case by simp
  next
    case (Cons a as)
    then show ?case
      by (auto split: sum.splits dest: present_preserved)
  qed
  show ?case
  proof (cases "entry = e")
    case True
    then show ?thesis using recurse_present [OF t1] keep by simp
  next
    case False
    with Cons.prems(2) have "entry \<in> set es" by simp
    then show ?thesis using Cons.IH [OF rest] by simp
  qed
qed

lemma setdefault_set: "setdefault d k v = (x, d1) \<Longrightarrow> set d1 \<subseteq> insert (k, v) (set d)"
  using set_dict_set [of d k v] by (auto simp: setdefault_def split: option.splits)

lemma setdefault_value: "setdefault d k v = (x, d1) \<Longrightarrow> x = v \<or> (k, x) \<in> set d"
  by (auto simp: setdefault_def dict_get_in split: option.splits)

lemma leaves_distinct_recurse:
  "recurse entry t = Inr t' \<Longrightarrow> leaves_distinct t \<Longrightarrow> leaves_distinct t'"
proof (induction entry t arbitrary: t' rule: recurse.induct)
  case (1 entry xs)
  then show ?case by simp
next
  case (2 entry d)
  note prems = "2.prems"
  show ?case
  proof (cases "length entry = 2")
    case True
    obtain x d1 where sd: "setdefault d (entry ! 0) (Leaves []) = (x, d1)"
      by (cases "setdefault d (entry ! 0) (Leaves [])")
    have d1: "\<forall>kt \<in> set d1. leaves_distinct (snd kt)"
      using setdefault_set [OF sd] prems(2) by auto
    have "leaves_distinct (Dict (dict_set d1 k (Leaves (xs @ [v]))))"
      if "dict_get d1 k = Some (Leaves xs)" "v \<notin> set xs" for k xs v
    proof -
      have "leaves_distinct (Leaves xs)"
        using dict_get_in [OF that(1)] d1 by fastforce
      then have "leaves_distinct (Leaves (xs @ [v]))"
        using that(2) by simp
      then show ?thesis
        using d1 set_dict_set [of d1 k "Leaves (xs @ [v])"] by auto
    qed
    then show ?thesis
      using prems(1) d1 unfolding recurse_leaf [OF True sd]
      by (auto split: option.splits nested.splits if_splits)
  next
    case False
    with prems(1) obtain k rest where entry: "entry = k # rest"
      by (cases entry) auto
    obtain sub d1 where sd: "setdefault d k (Dict []) = (sub, d1)"
      by (cases "setdefault d k (Dict [])")
    from prems(1) obtain sub' where
      sub': "recurse rest sub = Inr sub'" and t': "t' = Dict (dict_set d1 k sub')"
      unfolding entry recurse_step [OF False [unfolded entry] sd]
      by (auto split: sum.splits)
    have d1: "\<forall>kt \<in> set d1. leaves_distinct (snd kt)"
      using setdefault_set [OF sd] prems(2) by auto
    have "leaves_distinct sub"
      using setdefault_value [OF sd] prems(2) by auto
    then have "leaves_distinct sub'"
      using "2.IH" [OF False entry sd [symmetric] refl sub'] by simp
    then show ?thesis
      using d1 set_dict_set [of d1 k sub'] unfolding t' by auto
  qed
qed

lemma leaves_distinct_recurse_all:
  "recurse_all entries t = Inr t' \<Longrightarrow> leaves_distinct t \<Longrightarrow> leaves_distinct t'"
  by (induction entries arbitrary: t) (auto split: sum.splits dest: leaves_distinct_recurse)

lemma shaped_recurse:
  "2 \<le> length entry \<Longrightarrow> shaped (length entry - 1) t \<Longrightarrow>
     \<exists>t'. recurse entry t = Inr t' \<and> shaped (length entry - 1) t'"
proof (induction entry t rule: recurse.induct)
  case (1 entry xs)
  then show ?case by (cases "length entry - 1") simp_all
next
  case (2 entry d)
  note prems = "2.prems"
  show ?case
  proof (cases "length entry = 2")
    case True
    obtain x d1 where sd: "setdefault d (entry ! 0) (Leaves []) = (x, d1)"
      by (cases "setdefault d (entry ! 0) (Leaves [])")
    from prems(2) True have d: "\<forall>kt \<in> set d. shaped 0 (snd kt)"
      by simp
    have d1: "\<forall>kt \<in> set d1. shaped 0 (snd kt)"
      using setdefault_set [OF sd] d by auto
    have some: "dict_get d1 (entry ! 0) = Some x"
      using setdefault_get [OF sd, of "entry ! 0"] by simp
    with d1 obtain xs where x: "x = Leaves xs"
      using dict_get_in [OF some] by (cases x) auto
    have "\<forall>kt \<in> set (dict_set d1 (entry ! 0) (Leaves (xs @ [entry ! 1]))). shaped 0 (snd kt)"
      using d1 set_dict_set [of d1 "entry ! 0" "Leaves (xs @ [entry ! 1])"] by auto
    with d1 show ?thesis
      unfolding recurse_leaf [OF True sd] using some x True by simp
  next
    case False
    with prems(1) obtain k rest where entry: "entry = k # rest"
      by (cases entry) auto
    from False prems(1) entry have "\<exists>m. length rest = Suc (Suc m)"
      by (intro exI [of _ "length rest - 2"]) simp
    then obtain m where m: "length rest - 1 = Suc m" "length entry - 1 = Suc (Suc m)"
      using entry by auto
    obtain sub d1 where sd: "setdefault d k (Dict []) = (sub, d1)"
      by (cases "setdefault d k (Dict [])")
    from prems(2) have d: "\<forall>kt \<in> set d. shaped (Suc m) (snd kt)"
      unfolding m by simp
    have d1: "\<forall>kt \<in> set d1. shaped (Suc m) (snd kt)"
      using setdefault_set [OF sd] d by auto
    have "shaped (Suc m) sub"
      using setdefault_value [OF sd] d by auto
    moreover have "2 \<le> length rest"
      using m by simp
    ultimately obtain sub' where sub': "recurse rest sub = Inr sub'" "shaped (Suc m) sub'"
      using "2.IH" [OF False entry sd [symmetric] refl] m by auto
    have "\<forall>kt \<in> set (dict_set d1 k sub'). shaped (Suc m) (snd kt)"
      using d1 set_dict_set [of d1 k sub'] sub'(2) by auto
    then show ?thesis
      unfolding entry recurse_step [OF False [unfolded entry] sd] using sub'(1) m entry
      by simp
  qed
qed

lemma shaped_recurse_all:
  "\<forall>entry \<in> set entries. length entry = n \<Longrightarrow> 2 \<le> n \<Longrightarrow> shaped (n - 1) t \<Longrightarrow>
     \<exists>t'. recurse_all entries t = Inr t' \<and> shaped (n - 1) t'"
proof (induction entries arbitrary: t)
  case Nil
  then show ?case by simp
next
  case (Cons e es)
  then obtain t1 where "recurse e t = Inr t1" "shaped (n - 1) t1"
    using shaped_recurse [of e t] by auto
  with Cons show ?case by auto
qed

text \<open>
  Claim C6, as the code has it. Whenever two tuples of the entry list differ in arity,
  \<open>_tuple_to_nested_dicts\<close> raises \<open>AssertionError\<close> and builds nothing, whatever \<open>d\<close> is.
  For a non-empty entry list whose tuples all have the same arity, at least 2 (a key and a
  text), and no dictionary passed in, it does not raise.
\<close>

theorem tuple_to_nested_dicts_arity:
  "((\<exists>x \<in> set entries. \<exists>y \<in> set entries. length x \<noteq> length y) \<longrightarrow>
      tuple_to_nested_dicts entries d = Inl AssertionError)
   \<and> (entries \<noteq> [] \<and> (\<forall>entry \<in> set entries. length entry = n) \<and> 2 \<le> n \<longrightarrow>
      (\<exists>t. tuple_to_nested_dicts entries None = Inr t))"
proof (intro conjI impI)
  assume "\<exists>x \<in> set entries. \<exists>y \<in> set entries. length x \<noteq> length y"
  then obtain x y where xy: "x \<in> set entries" "y \<in> set entries" "length x \<noteq> length y"
    by blast
  have "card (set (map length entries)) \<noteq> 1"
  proof
    assume "card (set (map length entries)) = 1"
    then obtain c where c: "set (map length entries) = {c}"
      by (auto simp: card_1_singleton_iff)
    have "length x \<in> set (map length entries)" "length y \<in> set (map length entries)"
      using xy by simp_all
    with c xy(3) show False by simp
  qed
  then show "tuple_to_nested_dicts entries d = Inl AssertionError"
    by (simp add: tuple_to_nested_dicts_def)
next
  assume a: "entries \<noteq> [] \<and> (\<forall>entry \<in> set entries. length entry = n) \<and> 2 \<le> n"
  then have "set (map length entries) = {n}"
    by (cases entries) auto
  then have card: "card (set (map length entries)) = 1"
    by simp
  have "shaped (n - 1) (Dict ([] :: ('a \<times> 'a nested) list))"
    using a by (cases "n - 1") auto
  then obtain t' where "recurse_all entries (Dict []) = Inr t'"
    using shaped_recurse_all [of entries n "Dict []"] a by blast
  then show "\<exists>t. tuple_to_nested_dicts entries None = Inr t"
    using card by (simp add: tuple_to_nested_dicts_def)
qed

theorem tuple_to_nested_dicts_arity_witness:
  "tuple_to_nested_dicts [[''a'', ''b'', ''x''], [''a'', ''y'']] None = Inl AssertionError
   \<and> (\<exists>t. tuple_to_nested_dicts [[''a'', ''b'', ''x''], [''a'', ''c'', ''y'']] None = Inr t)"
proof -
  have differ: "\<exists>x \<in> set [[''a'', ''b'', ''x''], [''a'', ''y'']].
      \<exists>y \<in> set [[''a'', ''b'', ''x''], [''a'', ''y'']]. length x \<noteq> length y"
    by (rule bexI [of _ "[''a'', ''b'', ''x'']"], rule bexI [of _ "[''a'', ''y'']"]) simp_all
  have same: "[[''a'', ''b'', ''x''], [''a'', ''c'', ''y'']] \<noteq> []
      \<and> (\<forall>entry \<in> set [[''a'', ''b'', ''x''], [''a'', ''c'', ''y'']]. length entry = 3)
      \<and> (2::nat) \<le> 3"
    by simp
  show ?thesis
    using tuple_to_nested_dicts_arity [of "[[''a'', ''b'', ''x''], [''a'', ''y'']]" None 3]
      tuple_to_nested_dicts_arity [of "[[''a'', ''b'', ''x''], [''a'', ''c'', ''y'']]" None 3]
      differ same
    by blast
qed

text \<open>
  "It does not raise whenever all tuples share one arity" fails: the empty entry list has
  no arity at all, the set of arities is empty and the assertion fails; and one-element or
  empty tuples pass the assertion and raise \<open>IndexError\<close> in \<open>recurse\<close>.
\<close>

theorem tuple_to_nested_dicts_raises_counterexample:
  "tuple_to_nested_dicts ([] :: string option list list) None = Inl AssertionError
   \<and> tuple_to_nested_dicts [[Some ''a'']] None = Inl IndexError
   \<and> tuple_to_nested_dicts [[] :: string option list] None = Inl IndexError"
  by (simp add: tuple_to_nested_dicts_def setdefault_def)

text \<open>
  Claim C7. Folding a tuple a second time leaves the structure unchanged: directly after
  the first time, and also at the end of any entry list that holds the tuple already. So
  the structure built from any entry list (no dictionary passed in) has no text twice in
  the list at any path; in particular the entry list
  \<open>[("a", None, None, "x"), ("a", None, None, "x")]\<close> gives the list \<open>["x"]\<close> at its path.
\<close>

theorem recurse_idempotent:
  "(recurse entry t = Inr t' \<longrightarrow> recurse entry t' = Inr t')
   \<and> (entry \<in> set entries \<longrightarrow>
        tuple_to_nested_dicts (entries @ [entry]) d = tuple_to_nested_dicts entries d)
   \<and> (tuple_to_nested_dicts entries None = Inr built \<longrightarrow> leaves_distinct built)
   \<and> tuple_to_nested_dicts
        [[Some ''a'', None, None, Some ''x''], [Some ''a'', None, None, Some ''x'']] None
      = Inr (Dict [(Some ''a'', Dict [(None, Dict [(None, Leaves [Some ''x''])])])])"
proof (intro conjI impI)
  assume "recurse entry t = Inr t'"
  then show "recurse entry t' = Inr t'" by (rule recurse_idem)
next
  assume mem: "entry \<in> set entries"
  let ?t0 = "Dict (case d of None \<Rightarrow> [] | Some d0 \<Rightarrow> d0)"
  have len: "set (map length (entries @ [entry])) = set (map length entries)"
    using mem by auto
  have "recurse_all (entries @ [entry]) ?t0 = recurse_all entries ?t0"
  proof (cases "recurse_all entries ?t0")
    case (Inl err)
    then show ?thesis by (simp add: recurse_all_append)
  next
    case (Inr t1)
    then have "present entry t1"
      using mem by (rule recurse_all_present)
    then have "recurse entry t1 = Inr t1"
      by (rule present_recurse)
    with Inr show ?thesis by (simp add: recurse_all_append)
  qed
  then show "tuple_to_nested_dicts (entries @ [entry]) d = tuple_to_nested_dicts entries d"
    unfolding tuple_to_nested_dicts_def len by simp
next
  assume "tuple_to_nested_dicts entries None = Inr built"
  then have "recurse_all entries (Dict []) = Inr built"
    by (simp add: tuple_to_nested_dicts_def split: if_splits)
  then show "leaves_distinct built"
    by (rule leaves_distinct_recurse_all) simp
next
  show "tuple_to_nested_dicts
        [[Some ''a'', None, None, Some ''x''], [Some ''a'', None, None, Some ''x'']] None
      = Inr (Dict [(Some ''a'', Dict [(None, Dict [(None, Leaves [Some ''x''])])])])"
    by (simp add: tuple_to_nested_dicts_def setdefault_def)
qed

theorem recurse_idempotent_witness:
  "recurse [''a'', ''x''] (Dict []) = Inr (Dict [(''a'', Leaves [''x''])])
   \<and> recurse [''a'', ''x''] (Dict [(''a'', Leaves [''x''])]) = Inr (Dict [(''a'', Leaves [''x''])])
   \<and> tuple_to_nested_dicts ([[''a'', ''x''], [''a'', ''y'']] @ [[''a'', ''x'']]) None
       = tuple_to_nested_dicts [[''a'', ''x''], [''a'', ''y'']] None
   \<and> tuple_to_nested_dicts [[''a'', ''x''], [''a'', ''y'']] None
       = Inr (Dict [(''a'', Leaves [''x'', ''y''])])
   \<and> leaves_distinct (Dict [(''a'', Leaves [''x'', ''y''])])"
proof -
  have r: "recurse [''a'', ''x''] (Dict []) = Inr (Dict [(''a'', Leaves [''x''])])"
    by (simp add: setdefault_def)
  have t: "tuple_to_nested_dicts [[''a'', ''x''], [''a'', ''y'']] None
       = Inr (Dict [(''a'', Leaves [''x'', ''y''])])"
    by (simp add: tuple_to_nested_dicts_def setdefault_def)
  show ?thesis
    using recurse_idempotent [of "[''a'', ''x'']" "Dict []" "Dict [(''a'', Leaves [''x''])]"
        "[[''a'', ''x''], [''a'', ''y'']]" None "Dict [(''a'', Leaves [''x'', ''y''])]"] r t
    by simp
qed

section \<open>Properties of the summary view\<close>

lemma enumerate_filter_take_drop:
  "map snd (filter (\<lambda>(i, r). int i < n \<or> Q r) (enumerate k xs)) =
     take (nat (n - int k)) xs @ filter Q (drop (nat (n - int k)) xs)"
proof (induction xs arbitrary: k)
  case Nil
  then show ?case by simp
next
  case (Cons x xs)
  show ?case
  proof (cases "int k < n")
    case True
    then have "nat (n - int k) = Suc (nat (n - int (Suc k)))"
      by simp
    with True Cons [of "Suc k"] show ?thesis
      by simp
  next
    case False
    then have "nat (n - int k) = 0" "nat (n - int (Suc k)) = 0"
      by simp_all
    with False Cons [of "Suc k"] show ?thesis
      by simp
  qed
qed

lemma summarize_results_take_drop:
  "summarize_results ago results bs n_recent days =
     take (nat n_recent) results
     @ filter (\<lambda>r. ago days \<le> run_date r \<or> version r \<in> set bs) (drop (nat n_recent) results)"
  using enumerate_filter_take_drop
    [of n_recent "\<lambda>r. ago days \<le> run_date r \<or> version r \<in> set bs" 0 results]
  by (simp add: summarize_results_def)

lemma summarize_results_member:
  "r \<in> set (summarize_results ago results bs n_recent days) \<longleftrightarrow>
     (\<exists>i < length results. results ! i = r
        \<and> (int i < n_recent \<or> ago days \<le> run_date r \<or> version r \<in> set bs))"
  by (force simp: summarize_results_def in_set_enumerate_eq)

lemma first_among_most_recent:
  assumes sorted: "sorted_wrt (\<lambda>a b. date_of b \<le> date_of a) results"
    and i: "i < length results" "i < n"
  shows "among_most_recent date_of n results (results ! i)"
proof -
  have later: "date_of r' \<le> date_of (results ! i)" if "r' \<in> set (drop i results)" for r'
  proof -
    from that obtain j where j: "j < length (drop i results)" "r' = drop i results ! j"
      by (auto simp: in_set_conv_nth)
    then have r': "r' = results ! (i + j)" "i + j < length results"
      by simp_all
    show ?thesis
    proof (cases "j = 0")
      case True
      with r' show ?thesis by simp
    next
      case False
      then have "i < i + j" by simp
      with sorted r' show ?thesis
        by (simp add: sorted_wrt_iff_nth_less)
    qed
  qed
  have "filter (\<lambda>r'. date_of (results ! i) < date_of r') (drop i results) = []"
    using later by (auto simp: filter_empty_conv not_less)
  then have "filter (\<lambda>r'. date_of (results ! i) < date_of r') results
      = filter (\<lambda>r'. date_of (results ! i) < date_of r') (take i results)"
    by (metis append_Nil2 append_take_drop_id filter_append)
  then have "length (filter (\<lambda>r'. date_of (results ! i) < date_of r') results) \<le> i"
    using length_filter_le [of _ "take i results"] i(1) by simp
  with i show ?thesis
    by (simp add: among_most_recent_def)
qed

text \<open>
  What \<open>summarize_results\<close> returns: in their order, the results that stand among the
  first \<open>n_recent\<close> of the list as it is given, or whose run date is not before the day
  \<open>days\<close> days ago, or whose version is one of the bases. The first \<open>n_recent\<close> of the list
  are among the \<open>n_recent\<close> most recent results when the list is ordered from the latest
  date to the earliest.
\<close>

lemma summarize_results_positional:
  "summarize_results ago results bs n_recent days =
     take (nat n_recent) results
     @ filter (\<lambda>r. ago days \<le> run_date r \<or> version r \<in> set bs) (drop (nat n_recent) results)
   \<and> (\<forall>r. r \<in> set (summarize_results ago results bs n_recent days) \<longleftrightarrow>
          (\<exists>i < length results. results ! i = r
             \<and> (int i < n_recent \<or> ago days \<le> run_date r \<or> version r \<in> set bs)))
   \<and> (sorted_wrt (\<lambda>a b. date_of b \<le> date_of a) results \<longrightarrow>
        (\<forall>i. i < length results \<and> int i < n_recent \<longrightarrow>
           among_most_recent date_of (nat n_recent) results (results ! i)))"
  using summarize_results_take_drop [of ago results bs n_recent days]
    summarize_results_member [of _ ago results bs n_recent days]
    first_among_most_recent [of date_of results _ "nat n_recent"]
  by auto

text \<open>
  Claim C10 fails on the code. The docstring of \<open>summarize_results\<close> promises "the 3 most
  recent" results, as the claim does; the function keeps the first \<open>n_recent\<close> results of
  the list in the order in which it is given and does not sort. Of four results given
  oldest first, none of them of the last days or a base, it returns the three oldest and
  leaves out the most recent one.
\<close>

theorem summarize_results_oldest_first:
  "summarize_results (\<lambda>d. ''2024-06-01'')
     [result_on ''2020-01-01'' ''3.9'', result_on ''2021-01-01'' ''3.10'', result_on ''2022-01-01'' ''3.11'',
      result_on ''2023-01-01'' ''3.12''] [] 3 3
   = [result_on ''2020-01-01'' ''3.9'', result_on ''2021-01-01'' ''3.10'', result_on ''2022-01-01'' ''3.11'']
   \<and> among_most_recent run_date 3
        [result_on ''2020-01-01'' ''3.9'', result_on ''2021-01-01'' ''3.10'', result_on ''2022-01-01'' ''3.11'',
         result_on ''2023-01-01'' ''3.12''] (result_on ''2023-01-01'' ''3.12'')
   \<and> \<not> among_most_recent run_date 3
        [result_on ''2020-01-01'' ''3.9'', result_on ''2021-01-01'' ''3.10'', result_on ''2022-01-01'' ''3.11'',
         result_on ''2023-01-01'' ''3.12''] (result_on ''2020-01-01'' ''3.9'')"
  by (simp add: summarize_results_def among_most_recent_def result_on_def enumerate_eq_zip upt_rec)

section \<open>Properties of the removal of outdated comparison files\<close>

lemma example_stems:
  "path_stem ''r.json'' = ''r''" "path_stem ''r-vs-base.md'' = ''r-vs-base''"
  "path_stem ''r-vs-base.png'' = ''r-vs-base''" "path_stem ''r-vs-3.10.4.md'' = ''r-vs-3.10.4''"
  "path_stem ''r-vs-3.10.4.png'' = ''r-vs-3.10.4''" "path_stem ''README.md'' = ''README''"
  "path_stem ''gone-vs-base.md'' = ''gone-vs-base''"
  "path_stem ''bm-1'' = ''bm-1''" "path_stem ''bm-2'' = ''bm-2''"
  "path_stem ''bm-foo-vs-bar.json'' = ''bm-foo-vs-bar''"
  "path_stem ''bm-foo-vs-bar-vs-base.md'' = ''bm-foo-vs-bar-vs-base''"
  "path_stem ''bm-foo-vs-bar-vs-base.png'' = ''bm-foo-vs-bar-vs-base''"
  by (simp_all add: path_stem_def)

lemma example_matches:
  "re_match_vs ''r'' = None" "re_match_vs ''README'' = None"
  "re_match_vs ''r-vs-base'' = Some (''r'', ''base'')"
  "re_match_vs ''r-vs-3.10.4'' = Some (''r'', ''3.10.4'')"
  "re_match_vs ''gone-vs-base'' = Some (''gone'', ''base'')"
  "re_match_vs ''bm-foo-vs-bar'' = Some (''bm-foo'', ''bar'')"
  "re_match_vs ''bm-foo-vs-bar-vs-base'' = Some (''bm-foo-vs-bar'', ''base'')"
  by (simp_all add: re_match_vs_def)

lemma example_written:
  "write_comparisons (\<lambda>c. c) False example_result (map snd (bases example_result)) example_files
     = Inr example_files"
  by (simp add: example_files_def example_result_def RESULT_TYPES_def with_suffix_def
      parent_def name_def example_stems path_exists_def)

lemma example_removed:
  "remove_outdated example_result example_files
     = Inr [([''results''], Directory), ([''results'', ''bm-1''], Directory),
            ([''results'', ''bm-1'', ''r.json''], File),
            ([''results'', ''bm-1'', ''r-vs-base.md''], File),
            ([''results'', ''bm-1'', ''r-vs-base.png''], File),
            ([''results'', ''bm-1'', ''README.md''], File)]"
  by (simp add: remove_outdated_def iterdir_def unlink_def example_files_def
      example_result_def parent_def name_def artifact_of_def outdated_def primary_def
      example_stems example_matches path_exists_def is_dir_def)

lemma vs_written:
  "write_comparisons (\<lambda>c. c) False vs_result (map snd (bases vs_result)) vs_files = Inr vs_files"
  by (simp add: vs_files_def vs_result_def RESULT_TYPES_def with_suffix_def
      parent_def name_def example_stems path_exists_def)

lemma vs_removed:
  "remove_outdated vs_result vs_files
     = Inr [([''results''], Directory), ([''results'', ''bm-2''], Directory)]"
  by (simp add: remove_outdated_def iterdir_def unlink_def vs_files_def
      vs_result_def parent_def name_def artifact_of_def outdated_def primary_def
      example_stems example_matches path_exists_def is_dir_def)

lemma vs_removed_result_last:
  "remove_outdated vs_result
     [([''results''], Directory), ([''results'', ''bm-2''], Directory),
      ([''results'', ''bm-2'', ''bm-foo-vs-bar-vs-base.md''], File),
      ([''results'', ''bm-2'', ''bm-foo-vs-bar-vs-base.png''], File),
      ([''results'', ''bm-2'', ''bm-foo-vs-bar.json''], File)]
     = Inr [([''results''], Directory), ([''results'', ''bm-2''], Directory),
            ([''results'', ''bm-2'', ''bm-foo-vs-bar-vs-base.md''], File),
            ([''results'', ''bm-2'', ''bm-foo-vs-bar-vs-base.png''], File)]"
  by (simp add: remove_outdated_def iterdir_def unlink_def
      vs_result_def parent_def name_def artifact_of_def outdated_def primary_def
      example_stems example_matches path_exists_def is_dir_def)

text \<open>
  Claim C9 fails on the code. The pattern \<open>root-vs-base\<close> is matched against the stem of
  every entry of the directory, the result files included. The result file
  \<open>bm-foo-vs-bar.json\<close> matches with root \<open>bm-foo\<close> and base \<open>bar\<close>, and there is no file
  \<open>bm-foo.json\<close>: the pass for this very result deletes its result file, which is no
  comparison artifact, and then its reports against \<open>base\<close>, a base that is still
  configured, because their result file is gone. When the directory lists the result file
  after its reports, the result file is deleted all the same and the reports stay. In the
  scenario of the specification (reports for \<open>base\<close> and \<open>3.10.4\<close>, the bases reduced to
  \<open>base\<close>) the pass deletes the reports for \<open>3.10.4\<close> and leaves those for \<open>base\<close> in place.
\<close>

theorem save_generated_results_deletes_result_file:
  "save_generated_results (\<lambda>c. c) [vs_result] False vs_files
     = Inr [([''results''], Directory), ([''results'', ''bm-2''], Directory)]
   \<and> dict_get vs_files (filename vs_result) = Some File
   \<and> artifact_of (filename vs_result) = Some (''bm-foo'', ''bar'')
   \<and> artifact_of [''results'', ''bm-2'', ''bm-foo-vs-bar-vs-base.md'']
        = Some (path_stem (name (filename vs_result)), ''base'')
   \<and> dict_get (bases vs_result) ''base'' \<noteq> None
   \<and> save_generated_results (\<lambda>c. c) [vs_result] False
        [([''results''], Directory), ([''results'', ''bm-2''], Directory),
         ([''results'', ''bm-2'', ''bm-foo-vs-bar-vs-base.md''], File),
         ([''results'', ''bm-2'', ''bm-foo-vs-bar-vs-base.png''], File),
         ([''results'', ''bm-2'', ''bm-foo-vs-bar.json''], File)]
       = Inr [([''results''], Directory), ([''results'', ''bm-2''], Directory),
              ([''results'', ''bm-2'', ''bm-foo-vs-bar-vs-base.md''], File),
              ([''results'', ''bm-2'', ''bm-foo-vs-bar-vs-base.png''], File)]
   \<and> save_generated_results (\<lambda>c. c) [example_result] False example_files
       = Inr [([''results''], Directory), ([''results'', ''bm-1''], Directory),
              ([''results'', ''bm-1'', ''r.json''], File),
              ([''results'', ''bm-1'', ''r-vs-base.md''], File),
              ([''results'', ''bm-1'', ''r-vs-base.png''], File),
              ([''results'', ''bm-1'', ''README.md''], File)]"
proof -
  have written: "write_comparisons (\<lambda>c. c) False vs_result (map snd (bases vs_result))
     [([''results''], Directory), ([''results'', ''bm-2''], Directory),
      ([''results'', ''bm-2'', ''bm-foo-vs-bar-vs-base.md''], File),
      ([''results'', ''bm-2'', ''bm-foo-vs-bar-vs-base.png''], File),
      ([''results'', ''bm-2'', ''bm-foo-vs-bar.json''], File)]
     = Inr [([''results''], Directory), ([''results'', ''bm-2''], Directory),
      ([''results'', ''bm-2'', ''bm-foo-vs-bar-vs-base.md''], File),
      ([''results'', ''bm-2'', ''bm-foo-vs-bar-vs-base.png''], File),
      ([''results'', ''bm-2'', ''bm-foo-vs-bar.json''], File)]"
    by (simp add: vs_result_def RESULT_TYPES_def with_suffix_def parent_def name_def
        example_stems path_exists_def)
  show ?thesis
    using example_written example_removed vs_written vs_removed written vs_removed_result_last
    by (simp add: artifact_of_def name_def example_stems example_matches vs_files_def
        vs_result_def)
qed

text \<open>
  The pass ends with an exception when the directory of the result does not exist, and
  when it holds a sub-directory that the condition selects for removal.
\<close>

lemma save_generated_results_raises:
  "save_generated_results (\<lambda>c. c) [example_result \<lparr>bases := []\<rparr>] False
        [([''results''], Directory)]
     = Inl FileNotFoundError
   \<and> save_generated_results (\<lambda>c. c) [example_result \<lparr>bases := []\<rparr>] False
        [([''results''], Directory), ([''results'', ''bm-1''], Directory),
         ([''results'', ''bm-1'', ''r.json''], File),
         ([''results'', ''bm-1'', ''old-vs-base''], Directory)]
     = Inl IsADirectoryError"
  by (simp add: remove_outdated_def iterdir_def unlink_def
      example_result_def parent_def name_def artifact_of_def outdated_def primary_def
      example_stems example_matches path_exists_def is_dir_def
      path_stem_def re_match_vs_def)

end
